theory Spec2Isabelle
  imports Main "HOL-Library.Word"
begin

section \<open>The alert tracker of Kismet (alertracker.cc)\<close>

text \<open>
  A shallow embedding of \<^verbatim>\<open>src/alertracker.cc\<close>: the registry of alert definitions
  (\<^verbatim>\<open>RegisterAlert\<close>, \<^verbatim>\<open>FetchAlertRef\<close>), the rate limiter (\<^verbatim>\<open>CheckTimes\<close>), the
  probe and the dispatch path (\<^verbatim>\<open>PotentialAlert\<close>, \<^verbatim>\<open>RaiseAlert\<close>), the bounded backlog
  and the query handler (\<^verbatim>\<open>Httpd_CreateStreamResponse\<close>).

  Every member function runs under \<^verbatim>\<open>alert_mutex\<close> from its first to its last statement,
  so each one is a function from the tracker state to a result and the next state. The
  clock (\<^verbatim>\<open>gettimeofday\<close>, \<^verbatim>\<open>time\<close>) is an input: each read of the clock is an argument
  of the function that reads it.
\<close>

subsection \<open>Data model\<close>

text \<open>
  Modelled from the spec: the enumeration \<^verbatim>\<open>alert_time_unit\<close> and the table
  \<^verbatim>\<open>alert_time_unit_conv\<close> are declared in \<^verbatim>\<open>alertracker.h\<close>, which is not among
  the sources. The spec gives the granularities from the finest to the coarsest and
  their durations: second = 1, minute = 60, hour = 3600, day = 86400 seconds. A unit is
  the integer value of its enumerator; the source's own range check shows that
  \<^verbatim>\<open>sat_day\<close> is the largest one.
\<close>

definition sat_second :: int where "sat_second = 0"
definition sat_minute :: int where "sat_minute = 1"
definition sat_hour :: int where "sat_hour = 2"
definition sat_day :: int where "sat_day = 3"

definition alert_time_unit_conv :: "int list" where
  "alert_time_unit_conv = [1, 60, 3600, 86400]"

text \<open>The cast \<^verbatim>\<open>(unsigned int) x\<close> of an enumeration value.\<close>

definition unsigned_int :: "int \<Rightarrow> int" where
  "unsigned_int x = x mod 2 ^ 32"

text \<open>
  The duration of a unit in seconds: the table read at the unit. The units of a
  definition have passed the range check of \<^verbatim>\<open>RegisterAlert\<close>, which leaves a value of the
  enumeration between \<^verbatim>\<open>sat_second\<close> and \<^verbatim>\<open>sat_day\<close>.
\<close>

definition duration :: "int \<Rightarrow> int" where
  "duration u = alert_time_unit_conv ! nat u"

text \<open>
  Modelled from the spec: the class \<^verbatim>\<open>tracked_alert_definition\<close> is declared in
  \<^verbatim>\<open>alertracker.h\<close>, which is not among the sources. Its fields are the ones
  \<^verbatim>\<open>RegisterAlert\<close>, \<^verbatim>\<open>CheckTimes\<close> and \<^verbatim>\<open>RaiseAlert\<close> get and set. The spec
  describes the limits and the counters as event counts (a limit of 0 meaning
  unlimited): they are unsigned 64-bit values here, the type the source itself names
  where it sets a tracked field (\<^verbatim>\<open>ts->set((uint64_t) ...)\<close>), and the \<^verbatim>\<open>int\<close> arguments
  of \<^verbatim>\<open>RegisterAlert\<close> are converted to it. A new instance has both counters at 0.
  Times are seconds since the epoch, as \<^verbatim>\<open>time_t\<close>: a mathematical integer, which
  is what the signed 64-bit arithmetic of \<^verbatim>\<open>CheckTimes\<close> computes for every clock value
  that is not within a day of the least \<^verbatim>\<open>time_t\<close>.
\<close>

record tracked_alert_definition =
  alert_ref :: int
  def_header :: string
  def_description :: string
  def_phy :: int
  limit_unit :: int
  limit_rate :: "64 word"
  burst_unit :: int
  limit_burst :: "64 word"
  burst_sent :: "64 word"
  total_sent :: "64 word"
  time_last :: int

text \<open>
  \<^verbatim>\<open>kis_alert_info\<close>, as \<^verbatim>\<open>RaiseAlert\<close> fills it. The four addresses are opaque to the
  tracker.
\<close>

type_synonym mac_addr = "64 word"

record timeval =
  tv_sec :: int
  tv_usec :: int

record kis_alert_info =
  info_header :: string
  info_phy :: int
  info_tm :: timeval
  info_bssid :: mac_addr
  info_source :: mac_addr
  info_dest :: mac_addr
  info_other :: mac_addr
  info_channel :: string
  info_text :: string

text \<open>
  A packet, reduced to its \<^verbatim>\<open>PACK_COMP_ALERT\<close> component: \<open>None\<close> when the packet has
  no alert component yet, otherwise the component's \<^verbatim>\<open>alert_vec\<close>.
\<close>

record kis_packet =
  alert_component :: "kis_alert_info list option"

datatype msg_flag = MSGFLAG_INFO | MSGFLAG_ERROR | MSGFLAG_ALERT | MSGFLAG_FATAL

text \<open>
  \<^verbatim>\<open>alert_conf_rec\<close>: the limits of one \<^verbatim>\<open>alert\<close> line of the configuration, as
  \<^verbatim>\<open>ParseAlertStr\<close> returns them.
\<close>

record alert_conf_rec =
  conf_header :: string
  conf_limit_unit :: int
  conf_limit_rate :: int
  conf_burst_unit :: int
  conf_limit_burst :: int

text \<open>
  The tracker. \<^verbatim>\<open>alert_ref_map\<close> and \<^verbatim>\<open>alert_defs_vec\<close> hold shared pointers to the
  same definition objects: the objects live in \<open>alert_ref_map\<close>, under the reference
  \<^verbatim>\<open>RegisterAlert\<close> gave them, and \<open>alert_defs_vec\<close> lists those references in the
  order of registration. \<open>messagebus\<close> is the log of what \<^verbatim>\<open>_MSG\<close> has sent.
\<close>

record Alertracker =
  next_alert_id :: int
  num_backlog :: int
  alert_name_map :: "string \<rightharpoonup> int"
  alert_ref_map :: "int \<rightharpoonup> tracked_alert_definition"
  alert_defs_vec :: "int list"
  alert_backlog :: "kis_alert_info list"
  alert_conf_map :: "string \<rightharpoonup> alert_conf_rec"
  messagebus :: "(string \<times> msg_flag) list"

definition MSG :: "string \<Rightarrow> msg_flag \<Rightarrow> Alertracker \<Rightarrow> Alertracker" where
  "MSG s f st = st\<lparr>messagebus := messagebus st @ [(s, f)]\<rparr>"

subsection \<open>Registration\<close>

text \<open>
  Modelled from the spec: \<^verbatim>\<open>StrUpper\<close> is defined in \<^verbatim>\<open>util.cc\<close>, which is not among
  the sources. The spec says that the header is stored in a normalized, uppercase form:
  every ASCII lowercase letter is replaced by its capital.
\<close>

definition toupper :: "char \<Rightarrow> char" where
  "toupper c =
     (let n = (of_char c :: nat) in if 97 \<le> n \<and> n \<le> 122 then char_of (n - 32) else c)"

definition StrUpper :: "string \<Rightarrow> string" where
  "StrUpper s = map toupper s"

text \<open>
  Modelled from the spec: \<^verbatim>\<open>StrLower\<close> is defined in \<^verbatim>\<open>util.cc\<close> as well. The spec says
  that the configured templates are keyed by the lowercased header: every ASCII capital is
  replaced by its lowercase letter.
\<close>

definition tolower :: "char \<Rightarrow> char" where
  "tolower c =
     (let n = (of_char c :: nat) in if 65 \<le> n \<and> n \<le> 90 then char_of (n + 32) else c)"

definition StrLower :: "string \<Rightarrow> string" where
  "StrLower s = map tolower s"

text \<open>
  The range check of \<^verbatim>\<open>RegisterAlert\<close> on a time unit: a value beyond \<^verbatim>\<open>sat_day\<close>, read
  as an unsigned integer, becomes \<^verbatim>\<open>sat_day\<close>.
\<close>

definition clamp_unit :: "int \<Rightarrow> int" where
  "clamp_unit u = (if unsigned_int u > sat_day then sat_day else u)"

definition RegisterAlert ::
  "string \<Rightarrow> string \<Rightarrow> int \<Rightarrow> int \<Rightarrow> int \<Rightarrow> int \<Rightarrow> int \<Rightarrow> Alertracker \<Rightarrow> int \<times> Alertracker"
where
  "RegisterAlert in_header in_description in_unit in_rate in_burstunit in_burst in_phy st =
     (if alert_name_map st in_header \<noteq> None then
        (- 1, MSG (''Tried to re-register duplicate alert '' @ in_header) MSGFLAG_ERROR st)
      else
        let burstunit = clamp_unit in_burstunit;
            unit = clamp_unit in_unit
        in
          if burstunit > unit then
            (- 1, MSG (''Failed to register alert '' @ in_header @
                 '', time unit for burst rate must be less than or equal to the time unit for the max rate'')
               MSGFLAG_ERROR st)
          else
            let arec = \<lparr>alert_ref = next_alert_id st,
                        def_header = StrUpper in_header,
                        def_description = in_description,
                        def_phy = in_phy,
                        limit_unit = unit,
                        limit_rate = word_of_int in_rate,
                        burst_unit = burstunit,
                        limit_burst = word_of_int in_burst,
                        burst_sent = 0,
                        total_sent = 0,
                        time_last = 0\<rparr>
            in
              (alert_ref arec,
               st\<lparr>next_alert_id := next_alert_id st + 1,
                  alert_name_map := (alert_name_map st)(def_header arec \<mapsto> alert_ref arec),
                  alert_ref_map := (alert_ref_map st)(alert_ref arec \<mapsto> arec),
                  alert_defs_vec := alert_defs_vec st @ [alert_ref arec]\<rparr>))"

definition FetchAlertRef :: "string \<Rightarrow> Alertracker \<Rightarrow> int" where
  "FetchAlertRef in_header st =
     (case alert_name_map st in_header of Some r \<Rightarrow> r | None \<Rightarrow> - 1)"

text \<open>
  \<^verbatim>\<open>ActivateConfiguredAlert\<close> with its three arguments; the overload with two passes
  \<^verbatim>\<open>KIS_PHY_UNKNOWN\<close> for the third.
\<close>

definition ActivateConfiguredAlert ::
  "string \<Rightarrow> string \<Rightarrow> int \<Rightarrow> Alertracker \<Rightarrow> int \<times> Alertracker"
where
  "ActivateConfiguredAlert in_header in_desc in_phy st =
     (case alert_conf_map st (StrLower in_header) of
        None \<Rightarrow>
          (- 1, MSG (''Alert type '' @ in_header @ '' not found in list of activated alerts.'')
                 MSGFLAG_INFO st)
      | Some rec \<Rightarrow>
          RegisterAlert (conf_header rec) in_desc (conf_limit_unit rec) (conf_limit_rate rec)
            (conf_burst_unit rec) (conf_limit_burst rec) in_phy st)"

subsection \<open>The rate limiter\<close>

text \<open>
  \<^verbatim>\<open>CheckTimes\<close> works on the definition object itself: the result is the returned
  integer and the object as the call leaves it. \<open>now\<close> is \<^verbatim>\<open>now.tv_sec\<close> of its
  \<^verbatim>\<open>gettimeofday\<close>.
\<close>

definition CheckTimes ::
  "int \<Rightarrow> tracked_alert_definition \<Rightarrow> int \<times> tracked_alert_definition"
where
  "CheckTimes now arec =
     (if limit_rate arec = 0 then (1, arec)
      else if time_last arec < now - duration (limit_unit arec) then
        (1, arec\<lparr>total_sent := 0, burst_sent := 0\<rparr>)
      else
        let arec' =
              (if time_last arec < now - duration (burst_unit arec)
               then arec\<lparr>burst_sent := 0\<rparr> else arec)
        in
          if burst_sent arec' < limit_burst arec' \<and> total_sent arec' < limit_rate arec'
          then (1, arec') else (0, arec'))"

definition PotentialAlert :: "int \<Rightarrow> int \<Rightarrow> Alertracker \<Rightarrow> int \<times> Alertracker" where
  "PotentialAlert now in_ref st =
     (case alert_ref_map st in_ref of
        None \<Rightarrow> (0, st)
      | Some arec \<Rightarrow>
          (fst (CheckTimes now arec),
           st\<lparr>alert_ref_map := (alert_ref_map st)(in_ref \<mapsto> snd (CheckTimes now arec))\<rparr>))"

subsection \<open>Raising an alert\<close>

text \<open>
  \<^verbatim>\<open>RaiseAlert\<close> reads the clock three times: in \<^verbatim>\<open>CheckTimes\<close> (\<open>check_now\<close>), for the
  timestamp of the event (\<open>stamp\<close>), and for \<^verbatim>\<open>time_last\<close> (\<open>commit_now\<close>).
\<close>

record clock_reads =
  check_now :: int
  stamp :: timeval
  commit_now :: int

record raise_args =
  in_ref :: int
  in_pack :: "kis_packet option"
  in_bssid :: mac_addr
  in_source :: mac_addr
  in_dest :: mac_addr
  in_other :: mac_addr
  in_channel :: string
  in_text :: string
  clock :: clock_reads

definition new_alert_info :: "tracked_alert_definition \<Rightarrow> raise_args \<Rightarrow> kis_alert_info" where
  "new_alert_info arec a =
     \<lparr>info_header = def_header arec,
      info_phy = def_phy arec,
      info_tm = stamp (clock a),
      info_bssid = in_bssid a,
      info_source = in_source a,
      info_dest = in_dest a,
      info_other = in_other a,
      info_channel = in_channel a,
      info_text = in_text a\<rparr>"

text \<open>
  The backlog after \<^verbatim>\<open>push_back\<close> and, when it has grown beyond \<^verbatim>\<open>num_backlog\<close>, the
  erasure of its first element.
\<close>

definition push_backlog :: "int \<Rightarrow> kis_alert_info \<Rightarrow> kis_alert_info list \<Rightarrow> kis_alert_info list" where
  "push_backlog n info bl =
     (let bl' = bl @ [info] in if int (length bl') > n then tl bl' else bl')"

definition attach_alert :: "kis_alert_info \<Rightarrow> kis_packet \<Rightarrow> kis_packet" where
  "attach_alert info p =
     (case alert_component p of
        None \<Rightarrow> p\<lparr>alert_component := Some [info]\<rparr>
      | Some v \<Rightarrow> p\<lparr>alert_component := Some (v @ [info])\<rparr>)"

definition RaiseAlert :: "raise_args \<Rightarrow> Alertracker \<Rightarrow> (int \<times> kis_packet option) \<times> Alertracker" where
  "RaiseAlert a st =
     (case alert_ref_map st (in_ref a) of
        None \<Rightarrow> ((- 1, in_pack a), st)
      | Some arec0 \<Rightarrow>
          let arec = snd (CheckTimes (check_now (clock a)) arec0) in
          if fst (CheckTimes (check_now (clock a)) arec0) \<noteq> 1 then
            ((0, in_pack a), st\<lparr>alert_ref_map := (alert_ref_map st)(in_ref a \<mapsto> arec)\<rparr>)
          else
            let info = new_alert_info arec a;
                arec' = arec\<lparr>burst_sent := burst_sent arec + 1,
                             total_sent := total_sent arec + 1,
                             time_last := commit_now (clock a)\<rparr>
            in
              ((1, map_option (attach_alert info) (in_pack a)),
               MSG (info_header info @ '' '' @ info_text info) MSGFLAG_ALERT
                 (st\<lparr>alert_ref_map := (alert_ref_map st)(in_ref a \<mapsto> arec'),
                     alert_backlog := push_backlog (num_backlog st) info (alert_backlog st)\<rparr>)))"

subsection \<open>The query handler\<close>

text \<open>
  What \<^verbatim>\<open>Httpd_Serialize\<close> is given: the vector of definitions, the vector of alerts, or
  the map that wraps the vector of alerts with the timestamp.
\<close>

datatype stream_element =
    Definitions "tracked_alert_definition list"
  | AlertVector "kis_alert_info list"
  | AlertMap "kis_alert_info list" "64 word"

text \<open>
  The request as the handler sees it. \<^verbatim>\<open>Httpd_CanSerialize\<close>, \<^verbatim>\<open>Httpd_StripSuffix\<close>,
  \<^verbatim>\<open>StrTokenize\<close> and \<^verbatim>\<open>sscanf\<close> are not among the sources: the request carries what
  they return (\<open>can_serialize\<close> for the path, \<open>tokenurl\<close> for the path split at the
  slashes, \<open>stripped\<close> for \<^verbatim>\<open>tokenurl[2]\<close> without its suffix, \<open>scanned\<close> for the number
  read from \<^verbatim>\<open>tokenurl[3]\<close>, \<open>None\<close> when \<^verbatim>\<open>sscanf\<close> reads none) and
  \<^verbatim>\<open>globalreg->timestamp.tv_sec\<close>.
\<close>

record http_request =
  http_method :: string
  can_serialize :: bool
  tokenurl :: "string list"
  stripped :: string
  scanned :: "int option"
  globalreg_timestamp :: int

text \<open>The block under the mutex: the loop over the backlog and the wrapping.\<close>

definition alerts_since :: "int \<Rightarrow> kis_alert_info list \<Rightarrow> kis_alert_info list" where
  "alerts_since since_time bl = filter (\<lambda>i. since_time < tv_sec (info_tm i)) bl"

definition stream_alerts :: "bool \<Rightarrow> int \<Rightarrow> int \<Rightarrow> Alertracker \<Rightarrow> stream_element" where
  "stream_alerts wrap since_time ts st =
     (if wrap then AlertMap (alerts_since since_time (alert_backlog st)) (word_of_int ts)
      else AlertVector (alerts_since since_time (alert_backlog st)))"

definition Httpd_CreateStreamResponse :: "http_request \<Rightarrow> Alertracker \<Rightarrow> stream_element option" where
  "Httpd_CreateStreamResponse rq st =
     (if http_method rq \<noteq> ''GET'' then None
      else if \<not> can_serialize rq then None
      else if length (tokenurl rq) < 3 then None
      else if tokenurl rq ! 1 = ''alerts'' \<and> stripped rq = ''definitions'' then
        Some (Definitions (List.map_filter (alert_ref_map st) (alert_defs_vec st)))
      else if tokenurl rq ! 1 = ''alerts'' \<and> tokenurl rq ! 2 = ''last-time'' then
        (if length (tokenurl rq) < 5 then None
         else case scanned rq of
                None \<Rightarrow> None
              | Some lastts \<Rightarrow> Some (stream_alerts True lastts (globalreg_timestamp rq) st))
      else Some (stream_alerts False 0 (globalreg_timestamp rq) st))"

subsection \<open>Construction and runs\<close>

text \<open>
  The constructor, for a configuration whose \<^verbatim>\<open>alertbacklog\<close> option reads \<open>scantmp\<close>
  and whose \<^verbatim>\<open>alert\<close> lines \<^verbatim>\<open>ParseAlertConfig\<close> has read into the map \<open>conf\<close>: a
  negative \<open>scantmp\<close> is fatal (\<open>None\<close>), otherwise the tracker starts with the KISMET
  alert registered. \<open>KIS_PHY_ANY\<close> is a constant of a header that is not among the
  sources; its value plays no role.
\<close>

definition KIS_PHY_ANY :: int where "KIS_PHY_ANY = - 1"

definition Alertracker_init :: "(string \<rightharpoonup> alert_conf_rec) \<Rightarrow> int \<Rightarrow> Alertracker" where
  "Alertracker_init conf scantmp =
     (let st0 = \<lparr>next_alert_id = 0, num_backlog = scantmp, alert_name_map = Map.empty,
                   alert_ref_map = Map.empty, alert_defs_vec = [], alert_backlog = [],
                   alert_conf_map = conf, messagebus = []\<rparr>
      in MSG ''Created alert tracker...'' MSGFLAG_INFO
           (snd (RegisterAlert ''KISMET'' ''Server events'' sat_day 0 sat_day 0 KIS_PHY_ANY st0)))"

definition Alertracker_new :: "(string \<rightharpoonup> alert_conf_rec) \<Rightarrow> int \<Rightarrow> Alertracker option" where
  "Alertracker_new conf scantmp =
     (if scantmp < 0 then None else Some (Alertracker_init conf scantmp))"

text \<open>The public operations, with their arguments, and what each one returns.\<close>

datatype operation =
    Register string string int int int int int
  | Activate string string int
  | Fetch string
  | Potential int int
  | Raise raise_args
  | Query http_request

datatype outcome =
    Ref int
  | Allowed int
  | Raised int "kis_packet option"
  | Streamed "stream_element option"

fun exec :: "operation \<Rightarrow> Alertracker \<Rightarrow> outcome \<times> Alertracker" where
  "exec (Register h d u r bu b p) st =
     (Ref (fst (RegisterAlert h d u r bu b p st)), snd (RegisterAlert h d u r bu b p st))"
| "exec (Activate h d p) st =
     (Ref (fst (ActivateConfiguredAlert h d p st)), snd (ActivateConfiguredAlert h d p st))"
| "exec (Fetch h) st = (Ref (FetchAlertRef h st), st)"
| "exec (Potential now r) st =
     (Allowed (fst (PotentialAlert now r st)), snd (PotentialAlert now r st))"
| "exec (Raise a) st =
     (Raised (fst (fst (RaiseAlert a st))) (snd (fst (RaiseAlert a st))), snd (RaiseAlert a st))"
| "exec (Query rq) st = (Streamed (Httpd_CreateStreamResponse rq st), st)"

primrec run :: "operation list \<Rightarrow> Alertracker \<Rightarrow> Alertracker" where
  "run [] st = st"
| "run (c # cs) st = run cs (snd (exec c st))"

primrec outcomes :: "operation list \<Rightarrow> Alertracker \<Rightarrow> outcome list" where
  "outcomes [] st = []"
| "outcomes (c # cs) st = fst (exec c st) # outcomes cs (snd (exec c st))"

text \<open>The integer a call of \<^verbatim>\<open>RaiseAlert\<close> returned, read from the outcome of a run.\<close>

fun raised_code :: "outcome \<Rightarrow> int option" where
  "raised_code (Raised r p) = Some r"
| "raised_code _ = None"


text \<open>
  The events a run has accepted, in the order of their calls: a call of \<^verbatim>\<open>RaiseAlert\<close>
  that returns 1 contributes the \<^verbatim>\<open>kis_alert_info\<close> it builds, every other operation
  nothing.
\<close>

definition raised_info :: "operation \<Rightarrow> Alertracker \<Rightarrow> kis_alert_info list" where
  "raised_info c st =
     (case c of
        Raise a \<Rightarrow>
          (case alert_ref_map st (in_ref a) of
             Some arec \<Rightarrow>
               if fst (fst (RaiseAlert a st)) = 1
               then [new_alert_info (snd (CheckTimes (check_now (clock a)) arec)) a] else []
           | None \<Rightarrow> [])
      | _ \<Rightarrow> [])"

primrec accepted :: "operation list \<Rightarrow> Alertracker \<Rightarrow> kis_alert_info list" where
  "accepted [] st = []"
| "accepted (c # cs) st = raised_info c st @ accepted cs (snd (exec c st))"

text \<open>The counters of a definition with two nonzero limits are within them.\<close>

definition within_limits :: "tracked_alert_definition \<Rightarrow> bool" where
  "within_limits d \<longleftrightarrow>
     limit_rate d = 0 \<or> limit_burst d = 0 \<or>
     (total_sent d \<le> limit_rate d \<and> burst_sent d \<le> limit_burst d)"

definition all_within :: "Alertracker \<Rightarrow> bool" where
  "all_within st \<longleftrightarrow> (\<forall>r d. alert_ref_map st r = Some d \<longrightarrow> within_limits d)"

text \<open>
  A request of the form \<^verbatim>\<open>GET /alerts/last-time/<t>/...\<close> that the handler serves: at
  least five tokens, the second \<^verbatim>\<open>alerts\<close>, the third \<^verbatim>\<open>last-time\<close>, and \<open>t\<close> the number
  read from the fourth.
\<close>

definition last_time_query :: "http_request \<Rightarrow> int \<Rightarrow> bool" where
  "last_time_query rq t \<longleftrightarrow>
     http_method rq = ''GET'' \<and> can_serialize rq \<and> 5 \<le> length (tokenurl rq) \<and>
     tokenurl rq ! 1 = ''alerts'' \<and> stripped rq \<noteq> ''definitions'' \<and>
     tokenurl rq ! 2 = ''last-time'' \<and> scanned rq = Some t"

subsection \<open>Concrete trackers and calls\<close>

text \<open>
  A call of \<^verbatim>\<open>RaiseAlert\<close> on reference \<open>r\<close> whose three clock reads all fall in second
  \<open>t\<close>; a configuration with one \<^verbatim>\<open>alert\<close> line
  (\<^verbatim>\<open>alert=PROBEFLOOD,5/min,2/sec\<close>, whose header \<^verbatim>\<open>ParseAlertStr\<close> lowercases); a tracker
  of capacity 2 with one more alert type, limited to \<open>rate\<close> per minute and \<open>burst\<close> per
  second (reference 1, after KISMET at reference 0); that definition with given limits,
  counters and time of the last alert; and a request for the alerts after second \<open>t\<close>.
\<close>

definition demo_args :: "int \<Rightarrow> int \<Rightarrow> raise_args" where
  "demo_args r t =
     \<lparr>in_ref = r, in_pack = None, in_bssid = 0, in_source = 0, in_dest = 0, in_other = 0,
      in_channel = ''6'', in_text = ''flood'',
      clock = \<lparr>check_now = t, stamp = \<lparr>tv_sec = t, tv_usec = 0\<rparr>, commit_now = t\<rparr>\<rparr>"

definition demo_conf :: "string \<rightharpoonup> alert_conf_rec" where
  "demo_conf =
     [''probeflood'' \<mapsto>
        \<lparr>conf_header = ''probeflood'', conf_limit_unit = sat_minute, conf_limit_rate = 5,
         conf_burst_unit = sat_second, conf_limit_burst = 2\<rparr>]"

definition demo_tracker :: "int \<Rightarrow> int \<Rightarrow> Alertracker" where
  "demo_tracker rate burst =
     snd (RegisterAlert ''PROBEFLOOD'' ''flood'' sat_minute rate sat_second burst 0
            (Alertracker_init demo_conf 2))"

definition demo_def :: "64 word \<Rightarrow> 64 word \<Rightarrow> 64 word \<Rightarrow> 64 word \<Rightarrow> int \<Rightarrow> tracked_alert_definition" where
  "demo_def rate burst tsent bsent tlast =
     \<lparr>alert_ref = 1, def_header = ''PROBEFLOOD'', def_description = ''flood'', def_phy = 0,
      limit_unit = sat_minute, limit_rate = rate, burst_unit = sat_second, limit_burst = burst,
      burst_sent = bsent, total_sent = tsent, time_last = tlast\<rparr>"

definition demo_request :: "int \<Rightarrow> int \<Rightarrow> http_request" where
  "demo_request t ts =
     \<lparr>http_method = ''GET'', can_serialize = True,
      tokenurl = ['''', ''alerts'', ''last-time'', ''100'', ''alerts.json''],
      stripped = ''last-time'', scanned = Some t, globalreg_timestamp = ts\<rparr>"

section \<open>Properties\<close>

subsection \<open>The rate limiter\<close>

lemma CheckTimes_time_last: "time_last (snd (CheckTimes now arec)) = time_last arec"
  by (simp add: CheckTimes_def Let_def)

lemma CheckTimes_frame:
  "snd (CheckTimes now d) =
     d\<lparr>total_sent := total_sent (snd (CheckTimes now d)),
       burst_sent := burst_sent (snd (CheckTimes now d))\<rparr>"
  by (simp add: CheckTimes_def Let_def)

lemma CheckTimes_limits:
  "limit_rate (snd (CheckTimes now d)) = limit_rate d"
  "limit_burst (snd (CheckTimes now d)) = limit_burst d"
  "limit_unit (snd (CheckTimes now d)) = limit_unit d"
  "burst_unit (snd (CheckTimes now d)) = burst_unit d"
  "def_header (snd (CheckTimes now d)) = def_header d"
  "def_phy (snd (CheckTimes now d)) = def_phy d"
  by (subst CheckTimes_frame, simp)+

lemma CheckTimes_counters:
  "(total_sent (snd (CheckTimes now d)) = total_sent d \<or> total_sent (snd (CheckTimes now d)) = 0) \<and>
   (burst_sent (snd (CheckTimes now d)) = burst_sent d \<or> burst_sent (snd (CheckTimes now d)) = 0)"
  by (simp add: CheckTimes_def Let_def)


lemma CheckTimes_unlimited: "limit_rate d = 0 \<Longrightarrow> CheckTimes now d = (1, d)"
  by (simp add: CheckTimes_def)

lemma CheckTimes_denied:
  assumes "fst (CheckTimes now d) = 0"
  shows "snd (CheckTimes now d) =
           d\<lparr>burst_sent := (if duration (burst_unit d) < now - time_last d then 0 else burst_sent d)\<rparr>"
    and "limit_rate d \<noteq> 0" and "now - time_last d \<le> duration (limit_unit d)"
  using assms by (auto simp add: CheckTimes_def Let_def split: if_splits)

lemma zero_burst_denied:
  assumes "limit_rate d \<noteq> 0" "limit_burst d = 0" "now - time_last d \<le> duration (limit_unit d)"
  shows "fst (CheckTimes now d) = 0"
  using assms by (simp add: CheckTimes_def Let_def)

subsection \<open>The probe and the dispatch path on one definition\<close>





lemma RaiseAlert_denied:
  assumes "alert_ref_map st (in_ref a) = Some d" "fst (fst (RaiseAlert a st)) = 0"
  shows "RaiseAlert a st =
           ((0, in_pack a),
            st\<lparr>alert_ref_map := (alert_ref_map st)(in_ref a \<mapsto> snd (CheckTimes (check_now (clock a)) d))\<rparr>)"
    and "fst (CheckTimes (check_now (clock a)) d) = 0"
  using assms by (auto simp add: RaiseAlert_def Let_def CheckTimes_def split: if_splits)

lemma RaiseAlert_allowed:
  assumes "alert_ref_map st (in_ref a) = Some d" "fst (CheckTimes (check_now (clock a)) d) = 1"
  shows "fst (fst (RaiseAlert a st)) = 1"
    and "alert_ref_map (snd (RaiseAlert a st)) =
           (alert_ref_map st)(in_ref a \<mapsto>
              (snd (CheckTimes (check_now (clock a)) d))
                \<lparr>burst_sent := burst_sent (snd (CheckTimes (check_now (clock a)) d)) + 1,
                  total_sent := total_sent (snd (CheckTimes (check_now (clock a)) d)) + 1,
                  time_last := commit_now (clock a)\<rparr>)"
  using assms by (simp_all add: RaiseAlert_def Let_def MSG_def)

lemma zero_burst_window:
  assumes "alert_ref_map st r = Some d" "limit_rate d \<noteq> 0" "limit_burst d = 0"
    and "\<forall>a\<in>set as. in_ref a = r \<and> check_now (clock a) - time_last d \<le> duration (limit_unit d)"
  shows "map raised_code (outcomes (map Raise as) st) = replicate (length as) (Some 0)"
  using assms
proof (induction as arbitrary: st d)
  case Nil
  then show ?case by simp
next
  case (Cons a as)
  have ra: "in_ref a = r" using Cons.prems(4) by simp
  have m: "alert_ref_map st (in_ref a) = Some d" using Cons.prems(1) ra by simp
  have ct: "fst (CheckTimes (check_now (clock a)) d) = 0"
    using Cons.prems by (intro zero_burst_denied) simp_all
  have c0: "fst (fst (RaiseAlert a st)) = 0"
    using m ct by (simp add: RaiseAlert_def Let_def)
  let ?d1 = "snd (CheckTimes (check_now (clock a)) d)"
  have m1: "alert_ref_map (snd (RaiseAlert a st)) r = Some ?d1"
    using RaiseAlert_denied(1) [OF m c0] ra by simp
  have "map raised_code (outcomes (map Raise as) (snd (RaiseAlert a st))) =
          replicate (length as) (Some 0)"
    using Cons.prems by (intro Cons.IH [OF m1]) (simp_all add: CheckTimes_limits CheckTimes_time_last)
  then show ?case using c0 by simp
qed

subsection \<open>The invariant of the counters\<close>

lemma word_one_le: "(L :: 64 word) \<noteq> 0 \<Longrightarrow> 1 \<le> L"
  by (simp add: word_le_nat_alt unat_gt_0 Suc_leI)

lemma CheckTimes_within: "within_limits d \<Longrightarrow> within_limits (snd (CheckTimes now d))"
  by (auto simp add: within_limits_def CheckTimes_def Let_def)

lemma commit_within:
  assumes "within_limits d" "fst (CheckTimes now d) = 1"
  shows "within_limits ((snd (CheckTimes now d))
           \<lparr>burst_sent := burst_sent (snd (CheckTimes now d)) + 1,
            total_sent := total_sent (snd (CheckTimes now d)) + 1,
            time_last := t\<rparr>)"
proof (cases "limit_rate d = 0 \<or> limit_burst d = 0")
  case True
  then show ?thesis by (auto simp add: within_limits_def CheckTimes_limits)
next
  case False
  then have nz: "limit_rate d \<noteq> 0" "limit_burst d \<noteq> 0" by simp_all
  show ?thesis
  proof (cases "time_last d < now - duration (limit_unit d)")
    case True
    then show ?thesis
      using nz by (simp add: within_limits_def CheckTimes_def word_one_le)
  next
    case False
    define b where
      "b = (if time_last d < now - duration (burst_unit d) then 0 else burst_sent d)"
    have ct: "CheckTimes now d =
        (if b < limit_burst d \<and> total_sent d < limit_rate d then 1 else 0, d\<lparr>burst_sent := b\<rparr>)"
      using nz False by (simp add: CheckTimes_def Let_def b_def)
    from assms(2) have lt: "b < limit_burst d" "total_sent d < limit_rate d"
      by (simp_all add: ct split: if_splits)
    then have "b + 1 \<le> limit_burst d" "total_sent d + 1 \<le> limit_rate d"
      by (simp_all add: inc_le)
    then show ?thesis
      by (simp add: within_limits_def ct)
  qed
qed

lemma RegisterAlert_within:
  "all_within st \<Longrightarrow> all_within (snd (RegisterAlert h dsc u r bu b p st))"
  by (auto simp add: all_within_def RegisterAlert_def Let_def MSG_def within_limits_def)

lemma PotentialAlert_within: "all_within st \<Longrightarrow> all_within (snd (PotentialAlert now r st))"
  by (auto simp add: all_within_def PotentialAlert_def CheckTimes_within split: option.splits)

lemma RaiseAlert_within: "all_within st \<Longrightarrow> all_within (snd (RaiseAlert a st))"
  by (auto simp add: all_within_def RaiseAlert_def Let_def MSG_def CheckTimes_within commit_within
      split: option.splits if_splits)

lemma ActivateConfiguredAlert_within:
  "all_within st \<Longrightarrow> all_within (snd (ActivateConfiguredAlert h dsc p st))"
  by (simp add: ActivateConfiguredAlert_def RegisterAlert_within split: option.split)
    (simp add: all_within_def MSG_def)

lemma exec_within: "all_within st \<Longrightarrow> all_within (snd (exec c st))"
  by (cases c)
    (simp_all add: RegisterAlert_within ActivateConfiguredAlert_within PotentialAlert_within
      RaiseAlert_within)

lemma run_within: "all_within st \<Longrightarrow> all_within (run cs st)"
  by (induction cs arbitrary: st) (simp_all add: exec_within)

lemma init_within: "all_within (Alertracker_init conf n)"
  by (auto simp add: Alertracker_init_def Let_def MSG_def RegisterAlert_def all_within_def
      within_limits_def)

lemma Alertracker_new_Some: "Alertracker_new conf n = Some st \<Longrightarrow> 0 \<le> n \<and> st = Alertracker_init conf n"
  by (auto simp add: Alertracker_new_def split: if_splits)

subsection \<open>The backlog\<close>

lemma tl_drop_snoc:
  assumes "m \<le> length xs"
  shows "tl (drop m xs @ [i]) = drop (Suc m) (xs @ [i])"
proof -
  have "drop (Suc m) (xs @ [i]) = tl (drop m (xs @ [i]))"
    by (simp only: drop_Suc tl_drop)
  also have "drop m (xs @ [i]) = drop m xs @ [i]"
    using assms by simp
  finally show ?thesis by simp
qed

lemma push_backlog_keep:
  assumes "0 \<le> n"
  shows "push_backlog n i (drop (length xs - nat n) xs) =
           drop (length (xs @ [i]) - nat n) (xs @ [i])"
proof (cases "length xs < nat n")
  case True
  then have "\<not> n < 1 + int (length xs)" by linarith
  with True show ?thesis
    by (simp add: push_backlog_def Let_def)
next
  case False
  then have le: "nat n \<le> length xs" by simp
  then have len: "int (length (drop (length xs - nat n) xs @ [i])) > n"
    using assms by simp
  have s: "length (xs @ [i]) - nat n = Suc (length xs - nat n)"
    using le by simp
  have "push_backlog n i (drop (length xs - nat n) xs) = tl (drop (length xs - nat n) xs @ [i])"
    using len by (simp only: push_backlog_def Let_def if_True)
  also have "\<dots> = drop (Suc (length xs - nat n)) (xs @ [i])"
    by (rule tl_drop_snoc) simp
  finally show ?thesis
    by (simp only: s)
qed

lemma raised_info_cases: "raised_info c st = [] \<or> (\<exists>i. raised_info c st = [i])"
  by (simp add: raised_info_def split: operation.split option.split)

lemma RegisterAlert_backlog:
  "alert_backlog (snd (RegisterAlert h dsc u r bu b p st)) = alert_backlog st"
  "num_backlog (snd (RegisterAlert h dsc u r bu b p st)) = num_backlog st"
  by (simp_all add: RegisterAlert_def Let_def MSG_def)

lemma ActivateConfiguredAlert_backlog:
  "alert_backlog (snd (ActivateConfiguredAlert h dsc p st)) = alert_backlog st"
  "num_backlog (snd (ActivateConfiguredAlert h dsc p st)) = num_backlog st"
  by (simp_all add: ActivateConfiguredAlert_def RegisterAlert_backlog MSG_def split: option.split)

lemma exec_num_backlog: "num_backlog (snd (exec c st)) = num_backlog st"
  by (cases c)
    (simp_all add: RegisterAlert_backlog ActivateConfiguredAlert_backlog PotentialAlert_def
      RaiseAlert_def Let_def MSG_def split: option.split)

lemma exec_backlog_none:
  "raised_info c st = [] \<Longrightarrow> alert_backlog (snd (exec c st)) = alert_backlog st"
  by (cases c)
    (auto simp add: raised_info_def RegisterAlert_backlog ActivateConfiguredAlert_backlog
      PotentialAlert_def RaiseAlert_def Let_def MSG_def split: option.splits if_splits)

lemma exec_backlog_one:
  "raised_info c st = [i] \<Longrightarrow>
   alert_backlog (snd (exec c st)) = push_backlog (num_backlog st) i (alert_backlog st)"
  by (cases c)
    (auto simp add: raised_info_def RaiseAlert_def Let_def MSG_def split: option.splits if_splits)

lemma exec_backlog_keep:
  assumes "0 \<le> num_backlog st"
    and "alert_backlog st = drop (length pre - nat (num_backlog st)) pre"
  shows "alert_backlog (snd (exec c st)) =
           drop (length (pre @ raised_info c st) - nat (num_backlog st)) (pre @ raised_info c st)"
proof (cases "raised_info c st = []")
  case True
  then show ?thesis using assms(2) by (simp add: exec_backlog_none)
next
  case False
  then obtain i where i: "raised_info c st = [i]"
    using raised_info_cases [of c st] by blast
  show ?thesis
    using push_backlog_keep [OF assms(1), of i pre]
    by (simp add: i exec_backlog_one assms(2))
qed

lemma run_backlog_keep:
  assumes "0 \<le> num_backlog st"
    and "alert_backlog st = drop (length pre - nat (num_backlog st)) pre"
  shows "alert_backlog (run cs st) =
           drop (length (pre @ accepted cs st) - nat (num_backlog st)) (pre @ accepted cs st)"
  using assms
proof (induction cs arbitrary: st pre)
  case Nil
  then show ?case by simp
next
  case (Cons c cs)
  have n: "num_backlog (snd (exec c st)) = num_backlog st"
    by (rule exec_num_backlog)
  have b: "alert_backlog (snd (exec c st)) =
      drop (length (pre @ raised_info c st) - nat (num_backlog (snd (exec c st))))
        (pre @ raised_info c st)"
    using exec_backlog_keep [OF Cons.prems] by (simp only: n)
  have "0 \<le> num_backlog (snd (exec c st))"
    using Cons.prems(1) by (simp only: n)
  from Cons.IH [OF this b] show ?case
    by (simp add: n)
qed

lemma init_backlog: "alert_backlog (Alertracker_init conf n) = [] \<and> num_backlog (Alertracker_init conf n) = n"
  by (simp add: Alertracker_init_def Let_def MSG_def RegisterAlert_def)

lemma run_init_backlog:
  assumes "0 \<le> n"
  shows "alert_backlog (run cs (Alertracker_init conf n)) =
           drop (length (accepted cs (Alertracker_init conf n)) - nat n) (accepted cs (Alertracker_init conf n))"
  using run_backlog_keep [of "Alertracker_init conf n" "[]" cs] assms
  by (simp add: init_backlog)

text \<open>The events a run has accepted are as many as its calls of \<^verbatim>\<open>RaiseAlert\<close> that returned 1.\<close>

lemma RaiseAlert_unknown:
  "alert_ref_map st (in_ref a) = None \<Longrightarrow> fst (fst (RaiseAlert a st)) = - 1"
  by (simp add: RaiseAlert_def)

lemma raised_info_length:
  "length (raised_info c st) = (if raised_code (fst (exec c st)) = Some 1 then 1 else 0)"
  by (cases c) (auto simp add: raised_info_def RaiseAlert_unknown split: option.splits)

lemma accepted_count:
  "length (accepted cs st) = length (filter (\<lambda>x. raised_code x = Some 1) (outcomes cs st))"
  by (induction cs arbitrary: st) (simp_all add: raised_info_length)

subsection \<open>The query\<close>

lemma filter_after_sorted:
  fixes f :: "'a \<Rightarrow> int"
  assumes "sorted_wrt (<) (map f xs)" and "k < length xs"
  shows "filter (\<lambda>x. f (xs ! k) < f x) xs = drop (Suc k) xs"
  using assms
proof (induction xs arbitrary: k)
  case Nil
  then show ?case by simp
next
  case (Cons x xs)
  show ?case
  proof (cases k)
    case 0
    have "\<forall>y\<in>set xs. f x < f y" using Cons.prems(1) by simp
    then have "filter (\<lambda>y. f x < f y) xs = xs" by (simp add: filter_id_conv)
    then show ?thesis by (simp add: 0)
  next
    case (Suc j)
    then have j: "j < length xs" using Cons.prems(2) by simp
    then have "f x < f (xs ! j)" using Cons.prems(1) by simp
    then have "\<not> f (xs ! j) < f x" by simp
    moreover have "filter (\<lambda>y. f (xs ! j) < f y) xs = drop (Suc j) xs"
      using Cons.prems(1) j by (intro Cons.IH) simp_all
    ultimately show ?thesis by (simp add: Suc)
  qed
qed

lemma filter_after_sorted_drop:
  fixes f :: "'a \<Rightarrow> int"
  assumes "sorted_wrt (<) (map f xs)" and "k < length xs"
  shows "filter (\<lambda>x. f (xs ! k) < f x) (drop m xs) = drop (max (Suc k) m) xs"
proof (cases "m \<le> k")
  case True
  have s: "sorted_wrt (<) (map f (drop m xs))"
    using assms(1) by (simp add: sorted_wrt_drop drop_map [symmetric])
  have l: "k - m < length (drop m xs)"
    using assms(2) True by simp
  have n: "drop m xs ! (k - m) = xs ! k"
    using assms(2) True by simp
  have "filter (\<lambda>x. f (drop m xs ! (k - m)) < f x) (drop m xs) = drop (Suc (k - m)) (drop m xs)"
    using s l by (rule filter_after_sorted)
  then have "filter (\<lambda>x. f (xs ! k) < f x) (drop m xs) = drop (Suc (k - m) + m) xs"
    by (simp only: n drop_drop)
  moreover have "Suc (k - m) + m = max (Suc k) m"
    using True by simp
  ultimately show ?thesis by simp
next
  case False
  then have km: "k < m" by simp
  have "\<forall>x\<in>set (drop m xs). f (xs ! k) < f x"
  proof
    fix x assume "x \<in> set (drop m xs)"
    then obtain j where j: "j < length (drop m xs)" "x = drop m xs ! j"
      by (auto simp add: in_set_conv_nth)
    then have x: "x = xs ! (m + j)" and lt: "m + j < length xs"
      by simp_all
    have "k < m + j" "m + j < length (map f xs)"
      using km lt by simp_all
    with assms(1) have "map f xs ! k < map f xs ! (m + j)"
      by (rule sorted_wrt_nth_less)
    then show "f (xs ! k) < f x"
      using assms(2) lt by (simp add: x)
  qed
  then have "filter (\<lambda>x. f (xs ! k) < f x) (drop m xs) = drop m xs"
    by (simp add: filter_id_conv)
  moreover have "max (Suc k) m = m"
    using km by simp
  ultimately show ?thesis by simp
qed

lemma last_time_response:
  assumes "last_time_query rq t"
  shows "Httpd_CreateStreamResponse rq st =
           Some (AlertMap (alerts_since t (alert_backlog st)) (word_of_int (globalreg_timestamp rq)))"
  using assms by (simp add: last_time_query_def Httpd_CreateStreamResponse_def stream_alerts_def)

subsection \<open>Registration\<close>

lemma RegisterAlert_known_key:
  assumes "alert_name_map st h \<noteq> None"
  shows "fst (RegisterAlert h dsc u r bu b p st) = - 1 \<and>
         alert_ref_map (snd (RegisterAlert h dsc u r bu b p st)) = alert_ref_map st \<and>
         alert_name_map (snd (RegisterAlert h dsc u r bu b p st)) = alert_name_map st \<and>
         alert_defs_vec (snd (RegisterAlert h dsc u r bu b p st)) = alert_defs_vec st \<and>
         next_alert_id (snd (RegisterAlert h dsc u r bu b p st)) = next_alert_id st"
  using assms by (simp add: RegisterAlert_def MSG_def)

lemma RegisterAlert_new_key:
  assumes "fst (RegisterAlert h dsc u r bu b p st) \<noteq> - 1"
  shows "alert_name_map (snd (RegisterAlert h dsc u r bu b p st)) (StrUpper h) = Some (next_alert_id st)"
  using assms by (auto simp add: RegisterAlert_def Let_def MSG_def split: if_splits)

section \<open>The claims\<close>

subsection \<open>C1: the probe\<close>




subsection \<open>C2: the two windows\<close>

text \<open>
  C2 says that the windows are reset when \<open>now - lastEmitTime\<close> is at least the duration
  of the unit, so that with a burst unit of one second a call exactly one second after
  the last alert has its burst counter reset and is allowed when the total is below its
  limit. The spec's own scenario (5 per minute, 2 per second, three calls in second 100)
  leaves the total at 2 of 5 and the last alert at second 100; the call in second 101 is
  one second later, and it is refused.
\<close>

theorem one_second_later_counterexample:
  "alert_ref_map
     (run (map Raise [demo_args 1 100, demo_args 1 100, demo_args 1 100]) (demo_tracker 5 2)) 1
     = Some (demo_def 5 2 2 2 100) \<and>
   duration (burst_unit (demo_def 5 2 2 2 100)) \<le> 101 - time_last (demo_def 5 2 2 2 100) \<and>
   total_sent (demo_def 5 2 2 2 100) < limit_rate (demo_def 5 2 2 2 100) \<and>
   map raised_code
     (outcomes (map Raise [demo_args 1 100, demo_args 1 100, demo_args 1 100, demo_args 1 101])
        (demo_tracker 5 2))
     = [Some 1, Some 1, Some 0, Some 0]"
  by code_simp

text \<open>
  C2, as amended: for a definition with a nonzero \<^verbatim>\<open>limit_rate\<close>, both counters are reset
  and the event is allowed exactly when \<open>now - time_last\<close> is greater than the duration
  of the sustained unit; otherwise the burst counter is reset exactly when
  \<open>now - time_last\<close> is greater than the duration of the burst unit, and the event is
  allowed exactly when both counters, after that reset, are below their limits. With a
  burst unit of one second, a call two or more seconds after the last alert (and within
  the sustained window) has the burst counter reset and is allowed when the total is
  below its limit and the burst limit is not 0; a call exactly one second after it has
  nothing reset.
\<close>

theorem CheckTimes_windows:
  assumes "limit_rate arec \<noteq> 0"
  shows "CheckTimes now arec =
     (if now - time_last arec > duration (limit_unit arec) then
        (1, arec\<lparr>total_sent := 0, burst_sent := 0\<rparr>)
      else if now - time_last arec > duration (burst_unit arec) then
        (if 0 < limit_burst arec \<and> total_sent arec < limit_rate arec then 1 else 0,
         arec\<lparr>burst_sent := 0\<rparr>)
      else
        (if burst_sent arec < limit_burst arec \<and> total_sent arec < limit_rate arec then 1 else 0,
         arec)) \<and>
     (burst_unit arec = sat_second \<and> 2 \<le> now - time_last arec \<and>
      now - time_last arec \<le> duration (limit_unit arec) \<and>
      total_sent arec < limit_rate arec \<and> 0 < limit_burst arec \<longrightarrow>
        CheckTimes now arec = (1, arec\<lparr>burst_sent := 0\<rparr>)) \<and>
     (burst_unit arec = sat_second \<and> now - time_last arec = 1 \<and>
      1 \<le> duration (limit_unit arec) \<longrightarrow>
        CheckTimes now arec =
          (if burst_sent arec < limit_burst arec \<and> total_sent arec < limit_rate arec then 1 else 0,
           arec))"
  using assms
  by (auto simp add: CheckTimes_def Let_def duration_def sat_second_def alert_time_unit_conv_def)

theorem CheckTimes_windows_witness:
  "limit_rate (demo_def 5 2 2 2 100) \<noteq> 0 \<and>
   CheckTimes 102 (demo_def 5 2 2 2 100) = (1, demo_def 5 2 2 0 100) \<and>
   CheckTimes 101 (demo_def 5 2 2 2 100) = (0, demo_def 5 2 2 2 100) \<and>
   CheckTimes 161 (demo_def 5 2 2 2 100) = (1, demo_def 5 2 0 0 100)"
proof -
  have h: "limit_rate (demo_def 5 2 2 2 100) \<noteq> 0"
    by (simp add: demo_def_def)
  have u: "burst_unit (demo_def 5 2 2 2 100) = sat_second"
    "duration (limit_unit (demo_def 5 2 2 2 100)) = 60"
    "time_last (demo_def 5 2 2 2 100) = 100"
    "total_sent (demo_def 5 2 2 2 100) < limit_rate (demo_def 5 2 2 2 100)"
    "0 < limit_burst (demo_def 5 2 2 2 100)"
    "\<not> burst_sent (demo_def 5 2 2 2 100) < limit_burst (demo_def 5 2 2 2 100)"
    "(demo_def 5 2 2 2 100)\<lparr>burst_sent := 0\<rparr> = demo_def 5 2 2 0 100"
    "(demo_def 5 2 2 2 100)\<lparr>total_sent := 0, burst_sent := 0\<rparr> = demo_def 5 2 0 0 100"
    "duration sat_second = 1"
    by (simp_all add: demo_def_def duration_def sat_minute_def sat_second_def
        alert_time_unit_conv_def)
  show ?thesis
    using h CheckTimes_windows [OF h, of 102] CheckTimes_windows [OF h, of 101]
      CheckTimes_windows [OF h, of 161]
    by (simp add: u)
qed

subsection \<open>C3: the backlog is bounded and first-in, first-out\<close>

text \<open>
  C3: on a tracker fresh from its constructor with capacity \<open>n\<close>, after every sequence of
  operations the backlog holds at most \<open>n\<close> events, and it holds the last \<open>n\<close> of the
  events accepted so far, in the order of their acceptance: with \<open>k\<close> accepted events it
  is the list of accepted events without its first \<open>k - n\<close> elements, so for \<open>k > n\<close>
  it has \<open>n\<close> elements, the \<open>(k - n + 1)\<close>-th accepted event to the \<open>k\<close>-th. (With
  capacity 0 the source frees the event it has just appended and then still reads it for
  the packet and the message; the model keeps events as values, and the backlog is
  empty after the call as the claim says.)
\<close>

theorem backlog_bounded_fifo:
  assumes "Alertracker_new conf n = Some st0"
  shows "int (length (alert_backlog (run ops st0))) \<le> n \<and>
         alert_backlog (run ops st0) =
           drop (length (accepted ops st0) - nat n) (accepted ops st0) \<and>
         (nat n < length (accepted ops st0) \<longrightarrow>
            length (alert_backlog (run ops st0)) = nat n \<and>
            (\<forall>i < nat n. alert_backlog (run ops st0) ! i =
                 accepted ops st0 ! (length (accepted ops st0) - nat n + i)))"
proof -
  have n: "0 \<le> n" and st0: "st0 = Alertracker_init conf n"
    using assms by (simp_all add: Alertracker_new_Some)
  have bl: "alert_backlog (run ops st0) =
      drop (length (accepted ops st0) - nat n) (accepted ops st0)"
    unfolding st0 using n by (rule run_init_backlog)
  have "length (alert_backlog (run ops st0)) \<le> nat n"
    by (simp add: bl)
  then have le: "int (length (alert_backlog (run ops st0))) \<le> n"
    using n by linarith
  have nth: "nat n < length (accepted ops st0) \<longrightarrow>
            length (alert_backlog (run ops st0)) = nat n \<and>
            (\<forall>i < nat n. alert_backlog (run ops st0) ! i =
                 accepted ops st0 ! (length (accepted ops st0) - nat n + i))"
    by (simp add: bl)
  show ?thesis
    using le bl nth by (intro conjI)
qed

theorem backlog_bounded_fifo_witness:
  "Alertracker_new demo_conf 2 = Some (Alertracker_init demo_conf 2) \<and>
   map (\<lambda>i. tv_sec (info_tm i))
     (accepted (map Raise [demo_args 0 100, demo_args 0 101, demo_args 7 102, demo_args 0 103])
        (Alertracker_init demo_conf 2)) = [100, 101, 103] \<and>
   map (\<lambda>i. tv_sec (info_tm i))
     (alert_backlog
        (run (map Raise [demo_args 0 100, demo_args 0 101, demo_args 7 102, demo_args 0 103])
           (Alertracker_init demo_conf 2))) = [101, 103] \<and>
   int (length (alert_backlog
        (run (map Raise [demo_args 0 100, demo_args 0 101, demo_args 7 102, demo_args 0 103])
           (Alertracker_init demo_conf 2)))) \<le> 2"
proof -
  let ?ops = "map Raise [demo_args 0 100, demo_args 0 101, demo_args 7 102, demo_args 0 103]"
  have h: "Alertracker_new demo_conf 2 = Some (Alertracker_init demo_conf 2)"
    by (simp add: Alertracker_new_def)
  have a: "map (\<lambda>i. tv_sec (info_tm i)) (accepted ?ops (Alertracker_init demo_conf 2)) = [100, 101, 103]"
    by code_simp
  have b: "map (\<lambda>i. tv_sec (info_tm i)) (alert_backlog (run ?ops (Alertracker_init demo_conf 2))) =
      [101, 103]"
    by code_simp
  from backlog_bounded_fifo [OF h, of ?ops] have
    "int (length (alert_backlog (run ?ops (Alertracker_init demo_conf 2)))) \<le> 2"
    by (rule conjunct1)
  then show ?thesis
    using h a b by (intro conjI)
qed

subsection \<open>C4: a suppressed alert\<close>

text \<open>
  C4 says that a call of \<^verbatim>\<open>RaiseAlert\<close> that returns 0 changes neither the backlog, nor
  the message bus, nor any of the three values \<^verbatim>\<open>total_sent\<close>, \<^verbatim>\<open>burst_sent\<close> and
  \<^verbatim>\<open>time_last\<close>. With a limit of 1 per minute and 1 per second, after an accepted alert
  in second 100 the call in second 102 is refused (the total is at its limit), and it
  has reset the burst counter from 1 to 0 on the way.
\<close>

theorem suppressed_resets_burst_counterexample:
  "fst (fst (RaiseAlert (demo_args 1 102)
          (snd (RaiseAlert (demo_args 1 100) (demo_tracker 1 1))))) = 0 \<and>
   map_option burst_sent
     (alert_ref_map (snd (RaiseAlert (demo_args 1 100) (demo_tracker 1 1))) 1) = Some 1 \<and>
   map_option burst_sent
     (alert_ref_map
        (snd (RaiseAlert (demo_args 1 102)
           (snd (RaiseAlert (demo_args 1 100) (demo_tracker 1 1))))) 1) = Some 0"
  by code_simp

text \<open>
  C4, as amended: when \<^verbatim>\<open>RaiseAlert\<close> on a registered reference returns 0, the packet is
  as it was passed, the backlog and the message bus are unchanged, and the tracker
  differs from the one before the call at most in \<^verbatim>\<open>burst_sent\<close> of that definition,
  which is 0 when the burst window had passed and unchanged otherwise; \<^verbatim>\<open>total_sent\<close> and
  \<^verbatim>\<open>time_last\<close> are unchanged.
\<close>

theorem suppressed_frame:
  assumes "alert_ref_map st (in_ref a) = Some d" and "fst (fst (RaiseAlert a st)) = 0"
  shows "snd (fst (RaiseAlert a st)) = in_pack a \<and>
         alert_backlog (snd (RaiseAlert a st)) = alert_backlog st \<and>
         messagebus (snd (RaiseAlert a st)) = messagebus st \<and>
         snd (RaiseAlert a st) =
           st\<lparr>alert_ref_map := (alert_ref_map st)(in_ref a \<mapsto>
                d\<lparr>burst_sent := (if duration (burst_unit d) < check_now (clock a) - time_last d
                                   then 0 else burst_sent d)\<rparr>)\<rparr>"
proof -
  note r = RaiseAlert_denied [OF assms]
  show ?thesis
    by (simp add: r(1) CheckTimes_denied(1) [OF r(2)])
qed

theorem suppressed_frame_witness:
  "alert_ref_map (snd (RaiseAlert (demo_args 1 100) (demo_tracker 1 1))) (in_ref (demo_args 1 102))
     = Some (demo_def 1 1 1 1 100) \<and>
   fst (fst (RaiseAlert (demo_args 1 102)
          (snd (RaiseAlert (demo_args 1 100) (demo_tracker 1 1))))) = 0 \<and>
   alert_backlog (snd (RaiseAlert (demo_args 1 102)
          (snd (RaiseAlert (demo_args 1 100) (demo_tracker 1 1))))) =
     alert_backlog (snd (RaiseAlert (demo_args 1 100) (demo_tracker 1 1))) \<and>
   messagebus (snd (RaiseAlert (demo_args 1 102)
          (snd (RaiseAlert (demo_args 1 100) (demo_tracker 1 1))))) =
     messagebus (snd (RaiseAlert (demo_args 1 100) (demo_tracker 1 1)))"
proof -
  let ?st = "snd (RaiseAlert (demo_args 1 100) (demo_tracker 1 1))"
  have h1: "alert_ref_map ?st (in_ref (demo_args 1 102)) = Some (demo_def 1 1 1 1 100)"
    by code_simp
  have h2: "fst (fst (RaiseAlert (demo_args 1 102) ?st)) = 0"
    by code_simp
  from suppressed_frame [OF h1 h2] show ?thesis
    using h1 h2 by simp
qed

subsection \<open>C5: no limit\<close>

text \<open>
  C5 says that with \<^verbatim>\<open>limit_rate\<close> 0 every call of \<^verbatim>\<open>RaiseAlert\<close> returns 1 and the
  counters stay untouched. \<^verbatim>\<open>CheckTimes\<close> touches nothing then, but \<^verbatim>\<open>RaiseAlert\<close>
  increments both counters of every alert it accepts: one call on the KISMET alert, which
  the constructor registers with no limit, takes them from 0 to 1.
\<close>

theorem unlimited_counts_counterexample:
  "map_option (\<lambda>d. (limit_rate d, total_sent d, burst_sent d))
     (alert_ref_map (Alertracker_init demo_conf 2) 0) = Some (0, 0, 0) \<and>
   fst (fst (RaiseAlert (demo_args 0 100) (Alertracker_init demo_conf 2))) = 1 \<and>
   map_option (\<lambda>d. (limit_rate d, total_sent d, burst_sent d))
     (alert_ref_map (snd (RaiseAlert (demo_args 0 100) (Alertracker_init demo_conf 2))) 0) = Some (0, 1, 1)"
  by code_simp

text \<open>
  C5, as amended: for a definition with \<^verbatim>\<open>limit_rate\<close> 0, every call of \<^verbatim>\<open>RaiseAlert\<close> in
  any sequence of calls on its reference, whatever their clock reads, returns 1; the
  calls never reset a counter, and each one adds 1 to \<^verbatim>\<open>total_sent\<close> and to
  \<^verbatim>\<open>burst_sent\<close> (as unsigned 64-bit values) and sets \<^verbatim>\<open>time_last\<close> to its own time.
\<close>

theorem unlimited_always_created:
  assumes "alert_ref_map st r = Some d" and "limit_rate d = 0" and "\<forall>a\<in>set as. in_ref a = r"
  shows "map raised_code (outcomes (map Raise as) st) = replicate (length as) (Some 1) \<and>
         (\<exists>d'. alert_ref_map (run (map Raise as) st) r = Some d' \<and>
            total_sent d' = total_sent d + of_nat (length as) \<and>
            burst_sent d' = burst_sent d + of_nat (length as) \<and>
            time_last d' = (if as = [] then time_last d else commit_now (clock (last as))))"
  using assms
proof (induction as arbitrary: st d)
  case Nil
  then show ?case by simp
next
  case (Cons a as)
  have ra: "in_ref a = r" using Cons.prems(3) by simp
  have ct: "CheckTimes (check_now (clock a)) d = (1, d)"
    using Cons.prems(2) by (rule CheckTimes_unlimited)
  let ?d1 = "d\<lparr>burst_sent := burst_sent d + 1, total_sent := total_sent d + 1,
                time_last := commit_now (clock a)\<rparr>"
  have m: "alert_ref_map st (in_ref a) = Some d" using Cons.prems(1) ra by simp
  have c1: "fst (fst (RaiseAlert a st)) = 1"
    by (rule RaiseAlert_allowed(1) [OF m]) (simp add: ct)
  have "alert_ref_map (snd (RaiseAlert a st)) = (alert_ref_map st)(in_ref a \<mapsto> ?d1)"
    using RaiseAlert_allowed(2) [OF m] by (simp add: ct)
  then have m1: "alert_ref_map (snd (RaiseAlert a st)) r = Some ?d1"
    by (simp add: ra)
  have l1: "limit_rate ?d1 = 0" using Cons.prems(2) by simp
  have rest: "\<forall>a\<in>set as. in_ref a = r" using Cons.prems(3) by simp
  from Cons.IH [OF m1 l1 rest] obtain d' where d':
    "map raised_code (outcomes (map Raise as) (snd (RaiseAlert a st))) = replicate (length as) (Some 1)"
    "alert_ref_map (run (map Raise as) (snd (RaiseAlert a st))) r = Some d'"
    "total_sent d' = total_sent ?d1 + of_nat (length as)"
    "burst_sent d' = burst_sent ?d1 + of_nat (length as)"
    "time_last d' = (if as = [] then time_last ?d1 else commit_now (clock (last as)))"
    by blast
  show ?case
    using c1 d' by (simp add: add.assoc add.commute)
qed

theorem unlimited_always_created_witness:
  "map raised_code
     (outcomes (map Raise [demo_args 0 100, demo_args 0 100, demo_args 0 100])
        (Alertracker_init demo_conf 2)) = [Some 1, Some 1, Some 1] \<and>
   (\<exists>d'. alert_ref_map
            (run (map Raise [demo_args 0 100, demo_args 0 100, demo_args 0 100])
               (Alertracker_init demo_conf 2)) 0 = Some d' \<and>
      total_sent d' = 3 \<and> burst_sent d' = 3 \<and> time_last d' = 100)"
proof -
  let ?d = "\<lparr>alert_ref = 0, def_header = ''KISMET'', def_description = ''Server events'',
           def_phy = - 1, limit_unit = 3, limit_rate = 0, burst_unit = 3, limit_burst = 0,
           burst_sent = 0, total_sent = 0, time_last = 0\<rparr> :: tracked_alert_definition"
  have h1: "alert_ref_map (Alertracker_init demo_conf 2) 0 = Some ?d"
    by code_simp
  have h2: "limit_rate ?d = 0" by simp
  have h3: "\<forall>a\<in>set [demo_args 0 100, demo_args 0 100, demo_args 0 100]. in_ref a = 0"
    by (simp add: demo_args_def)
  from unlimited_always_created [OF h1 h2 h3] show ?thesis
    by (simp add: demo_args_def numeral_3_eq_3)
qed

subsection \<open>C6: registering a header twice\<close>

text \<open>
  C6 says that a second registration of the same header returns -1 and creates no
  definition. \<^verbatim>\<open>RegisterAlert\<close> looks the header up as it was passed, but stores it under
  its uppercase form: the second registration of \<^verbatim>\<open>probeflood\<close> does not find the key
  \<^verbatim>\<open>PROBEFLOOD\<close>, returns the new reference 2, appends a third definition, and points the
  name to it. The look-up of the header as it was registered finds nothing. The headers
  of the configuration are lowercase (\<^verbatim>\<open>ParseAlertStr\<close> stores them so), and
  \<^verbatim>\<open>ActivateConfiguredAlert\<close> registers under them: activating the same configured alert
  twice gives the references 1 and 2.
\<close>

theorem duplicate_lowercase_registered:
  "fst (RegisterAlert ''probeflood'' ''flood'' sat_minute 5 sat_second 2 0 (Alertracker_init demo_conf 2)) = 1 \<and>
   fst (RegisterAlert ''probeflood'' ''flood'' sat_minute 5 sat_second 2 0
          (snd (RegisterAlert ''probeflood'' ''flood'' sat_minute 5 sat_second 2 0
             (Alertracker_init demo_conf 2)))) = 2 \<and>
   alert_defs_vec
     (snd (RegisterAlert ''probeflood'' ''flood'' sat_minute 5 sat_second 2 0
        (snd (RegisterAlert ''probeflood'' ''flood'' sat_minute 5 sat_second 2 0
           (Alertracker_init demo_conf 2))))) = [0, 1, 2] \<and>
   alert_name_map
     (snd (RegisterAlert ''probeflood'' ''flood'' sat_minute 5 sat_second 2 0
        (snd (RegisterAlert ''probeflood'' ''flood'' sat_minute 5 sat_second 2 0
           (Alertracker_init demo_conf 2))))) ''PROBEFLOOD'' = Some 2 \<and>
   FetchAlertRef ''probeflood''
     (snd (RegisterAlert ''probeflood'' ''flood'' sat_minute 5 sat_second 2 0
        (Alertracker_init demo_conf 2))) = - 1 \<and>
   map (case_outcome Some (\<lambda>r. None) (\<lambda>r p. None) (\<lambda>e. None))
     (outcomes [Activate ''PROBEFLOOD'' ''flood'' 0, Activate ''PROBEFLOOD'' ''flood'' 0]
        (Alertracker_init demo_conf 2)) = [Some 1, Some 2]"
  by code_simp

subsection \<open>C7: the counters stay within the limits\<close>

text \<open>
  C7: after every sequence of public operations (registrations, activations of
  configured alerts, look-ups, probes, raised alerts, queries) on a tracker fresh from
  its constructor, every registered definition whose \<^verbatim>\<open>limit_rate\<close> and
  \<^verbatim>\<open>limit_burst\<close> are both nonzero has
  \<open>total_sent \<le> limit_rate\<close> and \<open>burst_sent \<le> limit_burst\<close>. As the sequence is
  arbitrary, this holds after each of its operations.
\<close>

theorem counters_within_limits:
  assumes "Alertracker_new conf n = Some st0" and "alert_ref_map (run ops st0) r = Some d"
    and "limit_rate d \<noteq> 0" and "limit_burst d \<noteq> 0"
  shows "total_sent d \<le> limit_rate d \<and> burst_sent d \<le> limit_burst d"
proof -
  have "st0 = Alertracker_init conf n"
    using assms(1) by (simp add: Alertracker_new_Some)
  then have "all_within (run ops st0)"
    by (simp add: run_within init_within)
  then have "within_limits d"
    using assms(2) by (simp add: all_within_def)
  then show ?thesis
    using assms(3,4) by (simp add: within_limits_def)
qed

theorem counters_within_limits_witness:
  "Alertracker_new demo_conf 2 = Some (Alertracker_init demo_conf 2) \<and>
   alert_ref_map
     (run [Activate ''ProbeFlood'' ''flood'' 0,
           Raise (demo_args 1 100), Raise (demo_args 1 100), Raise (demo_args 1 100),
           Potential 101 1, Raise (demo_args 1 102)]
        (Alertracker_init demo_conf 2)) 1 = Some (demo_def 5 2 3 1 102) \<and>
   total_sent (demo_def 5 2 3 1 102) \<le> limit_rate (demo_def 5 2 3 1 102) \<and>
   burst_sent (demo_def 5 2 3 1 102) \<le> limit_burst (demo_def 5 2 3 1 102)"
proof -
  have h1: "Alertracker_new demo_conf 2 = Some (Alertracker_init demo_conf 2)"
    by (simp add: Alertracker_new_def)
  have h2: "alert_ref_map
     (run [Activate ''ProbeFlood'' ''flood'' 0,
           Raise (demo_args 1 100), Raise (demo_args 1 100), Raise (demo_args 1 100),
           Potential 101 1, Raise (demo_args 1 102)]
        (Alertracker_init demo_conf 2)) 1 = Some (demo_def 5 2 3 1 102)"
    by code_simp
  have h3: "limit_rate (demo_def 5 2 3 1 102) \<noteq> 0" "limit_burst (demo_def 5 2 3 1 102) \<noteq> 0"
    by (simp_all add: demo_def_def)
  from counters_within_limits [OF h1 h2 h3] show ?thesis
    using h1 h2 by simp
qed

subsection \<open>C8: a burst unit coarser than the sustained unit\<close>

text \<open>
  C8: when the burst unit, after the range check, is coarser than the sustained unit
  after the range check, \<^verbatim>\<open>RegisterAlert\<close> returns -1 and creates no definition: the map
  of definitions, the map of names, the vector of definitions and the next reference are
  unchanged. (A header that is already a key of the map of names is refused before the
  units are looked at, with the same result.)
\<close>

theorem burst_coarser_rejected:
  assumes "clamp_unit in_burstunit > clamp_unit in_unit"
  shows "fst (RegisterAlert h dsc in_unit rate in_burstunit burst phy st) = - 1 \<and>
         alert_ref_map (snd (RegisterAlert h dsc in_unit rate in_burstunit burst phy st)) =
           alert_ref_map st \<and>
         alert_name_map (snd (RegisterAlert h dsc in_unit rate in_burstunit burst phy st)) =
           alert_name_map st \<and>
         alert_defs_vec (snd (RegisterAlert h dsc in_unit rate in_burstunit burst phy st)) =
           alert_defs_vec st \<and>
         next_alert_id (snd (RegisterAlert h dsc in_unit rate in_burstunit burst phy st)) =
           next_alert_id st \<and>
         alert_backlog (snd (RegisterAlert h dsc in_unit rate in_burstunit burst phy st)) =
           alert_backlog st"
  using assms by (simp add: RegisterAlert_def Let_def MSG_def)

theorem burst_coarser_rejected_witness:
  "clamp_unit 7 > clamp_unit sat_minute \<and>
   fst (RegisterAlert ''PROBEFLOOD'' ''flood'' sat_minute 5 7 2 0 (Alertracker_init demo_conf 2)) = - 1 \<and>
   alert_defs_vec
     (snd (RegisterAlert ''PROBEFLOOD'' ''flood'' sat_minute 5 7 2 0 (Alertracker_init demo_conf 2))) =
     alert_defs_vec (Alertracker_init demo_conf 2) \<and>
   next_alert_id
     (snd (RegisterAlert ''PROBEFLOOD'' ''flood'' sat_minute 5 7 2 0 (Alertracker_init demo_conf 2))) =
     next_alert_id (Alertracker_init demo_conf 2)"
proof -
  have h: "clamp_unit 7 > clamp_unit sat_minute"
    by (simp add: clamp_unit_def unsigned_int_def sat_day_def sat_minute_def)
  from burst_coarser_rejected [OF h] show ?thesis
    using h by simp
qed

subsection \<open>C9: the query with a time cursor\<close>

text \<open>
  C9 says that a query with the cursor \<open>t\<close> returns the events of the backlog after second
  \<open>t\<close>, so that after accepted events at seconds \<open>t1 < ... < tN\<close> the query with
  \<open>t = t_k\<close> returns the events of \<open>t_{k+1}\<close> to \<open>t_N\<close>. The query reads the backlog,
  which holds the last accepted events only: with capacity 2 and four accepted events at
  the seconds 100 to 103, the query with \<open>t = 100\<close> returns the events of the seconds
  102 and 103; the event of second 101 has been evicted.
\<close>

theorem evicted_events_counterexample:
  "map (\<lambda>i. tv_sec (info_tm i))
     (accepted (map Raise [demo_args 0 100, demo_args 0 101, demo_args 0 102, demo_args 0 103])
        (Alertracker_init demo_conf 2)) = [100, 101, 102, 103] \<and>
   last_time_query (demo_request 100 500) 100 \<and>
   map_option (\<lambda>e. case e of AlertMap v ts \<Rightarrow> (map (\<lambda>i. tv_sec (info_tm i)) v, ts)
                      | _ \<Rightarrow> ([], 0))
     (Httpd_CreateStreamResponse (demo_request 100 500)
        (run (map Raise [demo_args 0 100, demo_args 0 101, demo_args 0 102, demo_args 0 103])
           (Alertracker_init demo_conf 2))) = Some ([102, 103], 500)"
  by code_simp

text \<open>
  C9, as amended: a request \<^verbatim>\<open>GET /alerts/last-time/<t>/...\<close> is answered with the
  events of the backlog whose \<^verbatim>\<open>tm.tv_sec\<close> is greater than \<open>t\<close> (an event of second \<open>t\<close>
  itself is left out), in the order of the backlog, wrapped in a map with
  \<^verbatim>\<open>globalreg->timestamp.tv_sec\<close>. So when the seconds of the events of the backlog
  increase strictly and \<open>t\<close> is the second of the event at position \<open>k\<close> (counted from 0),
  the answer holds the events after position \<open>k\<close>. When a fresh tracker of capacity \<open>n\<close>
  has accepted \<open>N\<close> events at strictly increasing seconds and \<open>t\<close> is the second of the
  accepted event at position \<open>k\<close>, the answer holds the accepted events after position
  \<open>k\<close> that the backlog still retains, which are the accepted events from position
  \<open>max (k + 1) (N - n)\<close> on; they are all the accepted events after position \<open>k\<close> when
  \<open>N - n \<le> k + 1\<close>.
\<close>

theorem events_since_cursor:
  assumes "last_time_query rq t"
  shows "Httpd_CreateStreamResponse rq st =
           Some (AlertMap (filter (\<lambda>i. t < tv_sec (info_tm i)) (alert_backlog st))
                   (word_of_int (globalreg_timestamp rq))) \<and>
         (sorted_wrt (<) (map (\<lambda>i. tv_sec (info_tm i)) (alert_backlog st)) \<and>
          k < length (alert_backlog st) \<and> t = tv_sec (info_tm (alert_backlog st ! k)) \<longrightarrow>
            Httpd_CreateStreamResponse rq st =
              Some (AlertMap (drop (Suc k) (alert_backlog st))
                      (word_of_int (globalreg_timestamp rq)))) \<and>
         (Alertracker_new conf n = Some fresh \<and> st = run ops fresh \<and>
          sorted_wrt (<) (map (\<lambda>i. tv_sec (info_tm i)) (accepted ops fresh)) \<and>
          k < length (accepted ops fresh) \<and> t = tv_sec (info_tm (accepted ops fresh ! k)) \<longrightarrow>
            Httpd_CreateStreamResponse rq st =
              Some (AlertMap
                      (drop (max (Suc k) (length (accepted ops fresh) - nat n)) (accepted ops fresh))
                      (word_of_int (globalreg_timestamp rq))) \<and>
            (length (accepted ops fresh) - nat n \<le> Suc k \<longrightarrow>
               Httpd_CreateStreamResponse rq st =
                 Some (AlertMap (drop (Suc k) (accepted ops fresh))
                         (word_of_int (globalreg_timestamp rq)))))"
proof -
  have r: "Httpd_CreateStreamResponse rq st =
           Some (AlertMap (filter (\<lambda>i. t < tv_sec (info_tm i)) (alert_backlog st))
                   (word_of_int (globalreg_timestamp rq)))" for st
    using last_time_response [OF assms] by (simp add: alerts_since_def)
  show ?thesis
  proof (intro conjI impI)
    show "Httpd_CreateStreamResponse rq st =
           Some (AlertMap (filter (\<lambda>i. t < tv_sec (info_tm i)) (alert_backlog st))
                   (word_of_int (globalreg_timestamp rq)))"
      by (rule r)
  next
    assume h: "sorted_wrt (<) (map (\<lambda>i. tv_sec (info_tm i)) (alert_backlog st)) \<and>
          k < length (alert_backlog st) \<and> t = tv_sec (info_tm (alert_backlog st ! k))"
    then have "filter (\<lambda>i. tv_sec (info_tm (alert_backlog st ! k)) < tv_sec (info_tm i))
        (alert_backlog st) = drop (Suc k) (alert_backlog st)"
      by (intro filter_after_sorted) simp_all
    then show "Httpd_CreateStreamResponse rq st =
              Some (AlertMap (drop (Suc k) (alert_backlog st))
                      (word_of_int (globalreg_timestamp rq)))"
      using h by (simp add: r)
  next
    assume h: "Alertracker_new conf n = Some fresh \<and> st = run ops fresh \<and>
          sorted_wrt (<) (map (\<lambda>i. tv_sec (info_tm i)) (accepted ops fresh)) \<and>
          k < length (accepted ops fresh) \<and> t = tv_sec (info_tm (accepted ops fresh ! k))"
    then have n: "0 \<le> n" and fresh: "fresh = Alertracker_init conf n"
      using Alertracker_new_Some [of conf n fresh] by simp_all
    have bl: "alert_backlog st =
        drop (length (accepted ops fresh) - nat n) (accepted ops fresh)"
      using run_init_backlog [OF n, of ops conf] h by (simp add: fresh)
    have f: "filter (\<lambda>i. tv_sec (info_tm (accepted ops fresh ! k)) < tv_sec (info_tm i))
        (drop (length (accepted ops fresh) - nat n) (accepted ops fresh)) =
          drop (max (Suc k) (length (accepted ops fresh) - nat n)) (accepted ops fresh)"
      using h by (intro filter_after_sorted_drop) simp_all
    have teq: "t = tv_sec (info_tm (accepted ops fresh ! k))"
      using h by simp
    have "filter (\<lambda>i. t < tv_sec (info_tm i)) (alert_backlog st) =
        drop (max (Suc k) (length (accepted ops fresh) - nat n)) (accepted ops fresh)"
      by (simp only: bl teq f)
    then show g: "Httpd_CreateStreamResponse rq st =
              Some (AlertMap
                      (drop (max (Suc k) (length (accepted ops fresh) - nat n)) (accepted ops fresh))
                      (word_of_int (globalreg_timestamp rq)))"
      by (simp only: r)
    assume "length (accepted ops fresh) - nat n \<le> Suc k"
    then have "max (Suc k) (length (accepted ops fresh) - nat n) = Suc k"
      by simp
    with g show "Httpd_CreateStreamResponse rq st =
                 Some (AlertMap (drop (Suc k) (accepted ops fresh))
                         (word_of_int (globalreg_timestamp rq)))"
      by simp
  qed
qed

theorem events_since_cursor_witness:
  "last_time_query (demo_request 101 500) 101 \<and>
   Alertracker_new demo_conf 2 = Some (Alertracker_init demo_conf 2) \<and>
   map (\<lambda>i. tv_sec (info_tm i))
     (accepted (map Raise [demo_args 0 100, demo_args 0 101, demo_args 0 102, demo_args 0 103])
        (Alertracker_init demo_conf 2)) = [100, 101, 102, 103] \<and>
   map_option (\<lambda>e. case e of AlertMap v ts \<Rightarrow> (map (\<lambda>i. tv_sec (info_tm i)) v, ts)
                      | _ \<Rightarrow> ([], 0))
     (Httpd_CreateStreamResponse (demo_request 101 500)
        (run (map Raise [demo_args 0 100, demo_args 0 101, demo_args 0 102, demo_args 0 103])
           (Alertracker_init demo_conf 2))) = Some ([102, 103], 500)"
proof -
  define ops where
    "ops = map Raise [demo_args 0 100, demo_args 0 101, demo_args 0 102, demo_args 0 103]"
  let ?init = "Alertracker_init demo_conf 2"
  let ?acc = "accepted ops ?init"
  have h: "last_time_query (demo_request 101 500) 101"
    by (simp add: last_time_query_def demo_request_def)
  have n: "Alertracker_new demo_conf 2 = Some ?init"
    by (simp add: Alertracker_new_def)
  have a: "map (\<lambda>i. tv_sec (info_tm i)) ?acc = [100, 101, 102, 103]"
    unfolding ops_def by code_simp
  have s: "sorted_wrt (<) (map (\<lambda>i. tv_sec (info_tm i)) ?acc)"
    by (simp add: a)
  have l: "length ?acc = 4"
    using arg_cong [OF a, of length] by simp
  have k: "1 < length ?acc" "length ?acc - nat 2 \<le> Suc 1"
    by (simp_all add: l)
  have t: "101 = tv_sec (info_tm (?acc ! 1))"
    using arg_cong [OF a, of "\<lambda>xs. xs ! 1"] k(1) by simp
  have d: "map (\<lambda>i. tv_sec (info_tm i)) (drop (Suc (Suc 0)) ?acc) = [102, 103]"
    by (simp add: drop_map [symmetric] a)
  have g: "globalreg_timestamp (demo_request 101 500) = 500"
    by (simp add: demo_request_def)
  have hyp: "Alertracker_new demo_conf 2 = Some ?init \<and> run ops ?init = run ops ?init \<and>
      sorted_wrt (<) (map (\<lambda>i. tv_sec (info_tm i)) ?acc) \<and> 1 < length ?acc \<and>
      101 = tv_sec (info_tm (?acc ! 1))"
    by (intro conjI refl n s k(1) t)
  note c = events_since_cursor [OF h, where st = "run ops ?init" and conf = demo_conf and n = 2
          and fresh = ?init and ops = ops and k = 1,
        THEN conjunct2, THEN conjunct2, THEN mp, OF hyp, THEN conjunct2, THEN mp, OF k(2)]
  have "map_option (\<lambda>e. case e of AlertMap v ts \<Rightarrow> (map (\<lambda>i. tv_sec (info_tm i)) v, ts)
                      | _ \<Rightarrow> ([], 0))
     (Httpd_CreateStreamResponse (demo_request 101 500) (run ops ?init)) = Some ([102, 103], 500)"
    by (simp add: c d g)
  then show ?thesis
    using h n a unfolding ops_def by (intro conjI)
qed

subsection \<open>C10: the sustained window opens without a look at the limits\<close>

text \<open>
  C10: when \<^verbatim>\<open>limit_rate\<close> is not 0 and the time since the last alert is longer than the
  sustained unit, \<^verbatim>\<open>CheckTimes\<close> resets both counters and returns 1 without comparing
  them with \<^verbatim>\<open>limit_rate\<close> or \<^verbatim>\<open>limit_burst\<close>. So a definition with a nonzero
  \<^verbatim>\<open>limit_rate\<close> and \<^verbatim>\<open>limit_burst\<close> 0 has its alert accepted once the window has
  passed, after which \<^verbatim>\<open>burst_sent\<close> is 1 and above \<^verbatim>\<open>limit_burst\<close>; and while the
  time since the last alert is within the sustained unit, every call on it is refused.
\<close>

theorem sustained_reset_unconditional:
  assumes "alert_ref_map st r = Some d" and "limit_rate d \<noteq> 0"
  shows "(duration (limit_unit d) < now - time_last d \<longrightarrow>
            CheckTimes now d = (1, d\<lparr>total_sent := 0, burst_sent := 0\<rparr>)) \<and>
         (limit_burst d = 0 \<and> in_ref a = r \<and>
          duration (limit_unit d) < check_now (clock a) - time_last d \<longrightarrow>
            fst (fst (RaiseAlert a st)) = 1 \<and>
            (\<exists>d'. alert_ref_map (snd (RaiseAlert a st)) r = Some d' \<and>
               burst_sent d' = 1 \<and> limit_burst d' < burst_sent d' \<and> total_sent d' = 1 \<and>
               time_last d' = commit_now (clock a) \<and>
               limit_rate d' = limit_rate d \<and> limit_unit d' = limit_unit d)) \<and>
         (limit_burst d = 0 \<and>
          (\<forall>b\<in>set bs. in_ref b = r \<and>
             check_now (clock b) - time_last d \<le> duration (limit_unit d)) \<longrightarrow>
            map raised_code (outcomes (map Raise bs) st) = replicate (length bs) (Some 0))"
proof (intro conjI impI)
  assume e: "duration (limit_unit d) < now - time_last d"
  show "CheckTimes now d = (1, d\<lparr>total_sent := 0, burst_sent := 0\<rparr>)"
    using assms(2) e by (simp add: CheckTimes_def)
next
  assume h: "limit_burst d = 0 \<and> in_ref a = r \<and>
          duration (limit_unit d) < check_now (clock a) - time_last d"
  then have ct: "CheckTimes (check_now (clock a)) d = (1, d\<lparr>total_sent := 0, burst_sent := 0\<rparr>)"
    using assms(2) by (simp add: CheckTimes_def)
  have m: "alert_ref_map st (in_ref a) = Some d" using assms(1) h by simp
  show "fst (fst (RaiseAlert a st)) = 1"
    by (rule RaiseAlert_allowed(1) [OF m]) (simp add: ct)
  have "alert_ref_map (snd (RaiseAlert a st)) =
      (alert_ref_map st)(in_ref a \<mapsto>
         d\<lparr>burst_sent := 1, total_sent := 1, time_last := commit_now (clock a)\<rparr>)"
    using RaiseAlert_allowed(2) [OF m] by (simp add: ct)
  then show "\<exists>d'. alert_ref_map (snd (RaiseAlert a st)) r = Some d' \<and>
               burst_sent d' = 1 \<and> limit_burst d' < burst_sent d' \<and> total_sent d' = 1 \<and>
               time_last d' = commit_now (clock a) \<and>
               limit_rate d' = limit_rate d \<and> limit_unit d' = limit_unit d"
    using h by simp
next
  assume h: "limit_burst d = 0 \<and>
          (\<forall>b\<in>set bs. in_ref b = r \<and>
             check_now (clock b) - time_last d \<le> duration (limit_unit d))"
  show "map raised_code (outcomes (map Raise bs) st) = replicate (length bs) (Some 0)"
    using assms h by (intro zero_burst_window [where d = d and r = r]) simp_all
qed

theorem sustained_reset_unconditional_witness:
  "alert_ref_map (snd (RaiseAlert (demo_args 1 100) (demo_tracker 3 0))) 1
     = Some (demo_def 3 0 1 1 100) \<and>
   CheckTimes 161 (demo_def 3 0 1 1 100) = (1, demo_def 3 0 0 0 100) \<and>
   fst (fst (RaiseAlert (demo_args 1 161)
          (snd (RaiseAlert (demo_args 1 100) (demo_tracker 3 0))))) = 1 \<and>
   map raised_code
     (outcomes (map Raise [demo_args 1 100, demo_args 1 130, demo_args 1 160])
        (snd (RaiseAlert (demo_args 1 100) (demo_tracker 3 0)))) = [Some 0, Some 0, Some 0]"
proof -
  let ?st = "snd (RaiseAlert (demo_args 1 100) (demo_tracker 3 0))"
  let ?d = "demo_def 3 0 1 1 100"
  have h1: "alert_ref_map ?st 1 = Some ?d"
    by code_simp
  have h2: "limit_rate ?d \<noteq> 0"
    by (simp add: demo_def_def)
  have u: "duration (limit_unit ?d) = 60" "time_last ?d = 100" "limit_burst ?d = 0"
    "?d\<lparr>total_sent := 0, burst_sent := 0\<rparr> = demo_def 3 0 0 0 100"
    by (simp_all add: demo_def_def duration_def sat_minute_def alert_time_unit_conv_def)
  have a: "in_ref (demo_args 1 161) = 1" "check_now (clock (demo_args 1 161)) = 161"
    by (simp_all add: demo_args_def)
  have b: "\<forall>b\<in>set [demo_args 1 100, demo_args 1 130, demo_args 1 160].
             in_ref b = 1 \<and> check_now (clock b) - time_last ?d \<le> duration (limit_unit ?d)"
    by (simp add: u demo_args_def)
  note t = sustained_reset_unconditional [OF h1 h2, of 161 "demo_args 1 161"
      "[demo_args 1 100, demo_args 1 130, demo_args 1 160]"]
  have e: "duration (limit_unit ?d) < 161 - time_last ?d"
    by (simp add: u)
  have c1: "CheckTimes 161 ?d = (1, demo_def 3 0 0 0 100)"
    using t [THEN conjunct1] e by (simp only: u(4))
  have c2: "fst (fst (RaiseAlert (demo_args 1 161) ?st)) = 1"
    using t [THEN conjunct2, THEN conjunct1] u(3) e by (simp only: a simp_thms)
  have c3: "map raised_code
     (outcomes (map Raise [demo_args 1 100, demo_args 1 130, demo_args 1 160]) ?st) =
       replicate (length [demo_args 1 100, demo_args 1 130, demo_args 1 160]) (Some 0)"
    using t [THEN conjunct2, THEN conjunct2] u(3) b by (simp only: simp_thms)
  have c4: "replicate (length [demo_args 1 100, demo_args 1 130, demo_args 1 160]) (Some (0::int)) =
      [Some 0, Some 0, Some 0]"
    by (simp add: numeral_3_eq_3)
  show ?thesis
    using h1 c1 c2 c3 [unfolded c4] by (intro conjI)
qed

subsection \<open>Registering an uppercase header twice\<close>

text \<open>
  For a header that is its own uppercase form, the check of \<^verbatim>\<open>RegisterAlert\<close> for a
  header that is already registered works: after a registration that succeeded, every
  further registration of the same header returns -1 and changes neither the
  definitions, nor the names, nor the next reference.
\<close>

theorem duplicate_uppercase_rejected:
  assumes "StrUpper h = h" and "fst (RegisterAlert h d1 u1 r1 bu1 b1 p1 st) \<noteq> - 1"
  shows "fst (RegisterAlert h d2 u2 r2 bu2 b2 p2 (snd (RegisterAlert h d1 u1 r1 bu1 b1 p1 st))) = - 1 \<and>
         alert_ref_map (snd (RegisterAlert h d2 u2 r2 bu2 b2 p2
             (snd (RegisterAlert h d1 u1 r1 bu1 b1 p1 st)))) =
           alert_ref_map (snd (RegisterAlert h d1 u1 r1 bu1 b1 p1 st)) \<and>
         alert_name_map (snd (RegisterAlert h d2 u2 r2 bu2 b2 p2
             (snd (RegisterAlert h d1 u1 r1 bu1 b1 p1 st)))) =
           alert_name_map (snd (RegisterAlert h d1 u1 r1 bu1 b1 p1 st)) \<and>
         alert_defs_vec (snd (RegisterAlert h d2 u2 r2 bu2 b2 p2
             (snd (RegisterAlert h d1 u1 r1 bu1 b1 p1 st)))) =
           alert_defs_vec (snd (RegisterAlert h d1 u1 r1 bu1 b1 p1 st)) \<and>
         next_alert_id (snd (RegisterAlert h d2 u2 r2 bu2 b2 p2
             (snd (RegisterAlert h d1 u1 r1 bu1 b1 p1 st)))) =
           next_alert_id (snd (RegisterAlert h d1 u1 r1 bu1 b1 p1 st))"
proof -
  have "alert_name_map (snd (RegisterAlert h d1 u1 r1 bu1 b1 p1 st)) (StrUpper h) =
      Some (next_alert_id st)"
    using assms(2) by (rule RegisterAlert_new_key)
  then have "alert_name_map (snd (RegisterAlert h d1 u1 r1 bu1 b1 p1 st)) h \<noteq> None"
    by (simp add: assms(1))
  then show ?thesis
    by (rule RegisterAlert_known_key)
qed

theorem duplicate_uppercase_rejected_witness:
  "StrUpper ''PROBEFLOOD'' = ''PROBEFLOOD'' \<and>
   fst (RegisterAlert ''PROBEFLOOD'' ''flood'' sat_minute 5 sat_second 2 0
          (Alertracker_init demo_conf 2)) = 1 \<and>
   fst (RegisterAlert ''PROBEFLOOD'' ''again'' sat_hour 7 sat_minute 3 0
          (snd (RegisterAlert ''PROBEFLOOD'' ''flood'' sat_minute 5 sat_second 2 0
             (Alertracker_init demo_conf 2)))) = - 1"
proof -
  have h1: "StrUpper ''PROBEFLOOD'' = ''PROBEFLOOD''"
    by code_simp
  have h2: "fst (RegisterAlert ''PROBEFLOOD'' ''flood'' sat_minute 5 sat_second 2 0
          (Alertracker_init demo_conf 2)) = 1"
    by code_simp
  have h3: "fst (RegisterAlert ''PROBEFLOOD'' ''flood'' sat_minute 5 sat_second 2 0
          (Alertracker_init demo_conf 2)) \<noteq> - 1"
    by (simp add: h2)
  from duplicate_uppercase_rejected [OF h1 h3, of "''again''" sat_hour 7 sat_minute 3 0]
  have c: "fst (RegisterAlert ''PROBEFLOOD'' ''again'' sat_hour 7 sat_minute 3 0
          (snd (RegisterAlert ''PROBEFLOOD'' ''flood'' sat_minute 5 sat_second 2 0
             (Alertracker_init demo_conf 2)))) = - 1"
    by (rule conjunct1)
  show ?thesis
    using h1 h2 c by (intro conjI)
qed

end
